theory Spec2Isabelle
  imports Complex_Main "HOL-Library.Multiset"
begin

section \<open>JavaScript string primitives used by the naming code\<close>

text \<open>
  Strings are \<^typ>\<open>string\<close> (character lists). The naming code only concatenates,
  splits at an ASCII dot, pads with an ASCII zero and collapses ASCII underscores, so the
  difference between UTF-16 code units and bytes plays no role.

  Ad numbers and asset indices are JavaScript numbers that hold non-negative integers;
  the model uses \<^typ>\<open>nat\<close>. A JavaScript number holds every integer below
  \<open>2^53\<close> exactly, and \<open>String(n)\<close> of such a number is its decimal representation
  without leading zeros. Above that the numbers are rounded, and from \<open>10^21\<close> on
  \<open>String\<close> prints exponent notation; the model does not cover these, and every
  theorem below about a name built from a number assumes the number below \<open>2^53\<close>.
\<close>

definition digit_char :: "nat \<Rightarrow> char" where
  "digit_char d = ''0123456789'' ! d"

text \<open>\<open>String(n)\<close> for an integer \<open>0 \<le> n < 2^53\<close>.\<close>

fun String_num :: "nat \<Rightarrow> string" where
  "String_num n =
     (if n < 10 then [digit_char n] else String_num (n div 10) @ [digit_char (n mod 10)])"

declare String_num.simps [simp del]

text \<open>
  \<open>s.padStart(targetLength, padString)\<close>: a string that is already long enough comes
  back unchanged, and so does any string when the pad string is empty; otherwise the pad
  string is repeated and cut to the missing length, and put in front.
\<close>

definition padStart :: "nat \<Rightarrow> string \<Rightarrow> string \<Rightarrow> string" where
  "padStart targetLength padString s =
     (if targetLength \<le> length s \<or> padString = [] then s
      else take (targetLength - length s)
             (concat (replicate (targetLength - length s) padString)) @ s)"

text \<open>
  \<open>s.split(c)\<close> for a one-character separator: the pieces between the separators, in
  order. The result is never empty: a string without separator gives the one-element
  array of the string itself, also for the empty string.
\<close>

fun split_from :: "char \<Rightarrow> string \<Rightarrow> string \<Rightarrow> string list" where
  "split_from c acc [] = [rev acc]"
| "split_from c acc (x # xs) =
     (if x = c then rev acc # split_from c [] xs else split_from c (x # acc) xs)"

definition split :: "char \<Rightarrow> string \<Rightarrow> string list" where
  "split c s = split_from c [] s"

text \<open>\<open>arr.pop()\<close> read as a value: the last element, \<open>undefined\<close> on an empty array.\<close>

definition pop :: "'a list \<Rightarrow> 'a option" where
  "pop arr = (if arr = [] then None else Some (last arr))"

text \<open>\<open>parts.join(sep)\<close>.\<close>

fun join :: "string \<Rightarrow> string list \<Rightarrow> string" where
  "join sep [] = []"
| "join sep [p] = p"
| "join sep (p # q # ps) = p @ sep @ join sep (q # ps)"

section \<open>Data model (types of the frontend)\<close>

datatype AssetType = IMG | VID

datatype Placement = Story | Feed | Unknown

datatype GroupType = Standard | Carousel | Single

text \<open>The string each member of a union of string literals stands for.\<close>

fun AssetType_token :: "AssetType \<Rightarrow> string" where
  "AssetType_token IMG = ''IMG''"
| "AssetType_token VID = ''VID''"

fun Placement_token :: "Placement \<Rightarrow> string" where
  "Placement_token Story = ''story''"
| "Placement_token Feed = ''feed''"
| "Placement_token Unknown = ''unknown''"

fun GroupType_token :: "GroupType \<Rightarrow> string" where
  "GroupType_token Standard = ''standard''"
| "GroupType_token Carousel = ''carousel''"
| "GroupType_token Single = ''single''"

text \<open>
  \<open>ExportRow\<close>, one row of the export view. The sources declare it twice: with the
  four confidence columns the specification and the README list, and, in the newer
  declaration file, without \<open>confidence_angle\<close>. No function of the frontend builds a
  row; the record has the columns of the specification.
\<close>

record ExportRow =
  file_id :: string
  old_name :: string
  new_name :: string
  group_id :: string
  group_type :: string
  placement_inferred :: string
  confidence_group :: rat
  confidence_product :: rat
  confidence_angle :: rat
  confidence_offer :: rat

text \<open>The identifier fields \<open>id\<close> of \<open>Asset\<close> and \<open>AdGroup\<close> carry the record's name.\<close>

record Asset =
  asset_id :: string
  name :: string
  path :: string
  asset_type :: AssetType
  size_bytes :: "nat option"

text \<open>
  \<open>ProcessedAsset\<close>. The optional \<open>custom_filename\<close> is \<open>None\<close> when the property
  is absent. The analysis metadata (width, height, duration, aspect ratio) is read by
  none of the functions below and is left out.
\<close>

record ProcessedAsset =
  asset :: Asset
  placement :: Placement
  ocr_text :: string
  fingerprint :: string
  frame_paths :: "string list"
  thumbnail_url :: "string option"
  card_headline :: string
  card_description :: string
  custom_filename :: "string option"

text \<open>
  \<open>ConfidenceScores\<close> and \<open>AdGroup\<close>, with the fields of the declaration that has
  \<open>campaign\<close>, \<open>angle\<close> and the angle score: the asset table reads
  \<open>group.campaign\<close> and \<open>group.angle\<close>, and the group card reads
  \<open>group.confidence.angle\<close>. (The newer declaration file of the sources has none of
  the three; an empty string is a field the table skips.) Scores are numbers between 0
  and 1; they are only compared, so rationals stand for them.
\<close>

record ConfidenceScores =
  conf_group :: rat
  conf_product :: rat
  conf_angle :: rat
  conf_offer :: rat

record AdGroup =
  ad_group_id :: string
  group_type :: GroupType
  assets :: "ProcessedAsset list"
  ad_number :: nat
  product :: string
  angle :: string
  hook :: string
  creator :: string
  offer :: bool
  campaign :: string
  date :: string
  confidence :: ConfidenceScores
  format_token :: string
  primary_text :: string
  headline :: string
  description :: string
  cta :: string
  url :: string
  comment_media_buyer :: string
  comment_client :: string

record GroupedAssets =
  groups :: "AdGroup list"
  ungrouped :: "ProcessedAsset list"

section \<open>The asset table: per-asset file names\<close>

text \<open>
  \<open>const ext = asset.asset.name.split('.').pop() || 'jpg'\<close>: the last piece of the
  name, replaced by \<open>jpg\<close> when it is \<open>undefined\<close> or the empty string.
\<close>

definition ext_of :: "string \<Rightarrow> string" where
  "ext_of nm =
     (case pop (split (CHR ''.'') nm) of
        None \<Rightarrow> ''jpg''
      | Some e \<Rightarrow> if e = [] then ''jpg'' else e)"

text \<open>The body of \<open>generateNewFileName\<close> below the custom-file-name guard.\<close>

definition derivedFileName :: "AdGroup \<Rightarrow> ProcessedAsset \<Rightarrow> nat \<Rightarrow> string" where
  "derivedFileName g a assetIndex =
     (let ext = ext_of (name (asset a)) in
      if group_type g = Carousel then
        (let adNum = padStart 4 ''0'' (String_num (ad_number g));
             cardNum = padStart 2 ''0'' (String_num (assetIndex + 1))
         in adNum @ ''_CAR_Card'' @ cardNum @ ''.'' @ ext)
      else
        (let adNum = padStart 3 ''0'' (String_num (ad_number g))
         in adNum @ ''_'' @ AssetType_token (asset_type (asset a)) @ ''_''
              @ Placement_token (placement a) @ ''.'' @ ext))"

text \<open>
  \<open>generateNewFileName\<close>. The guard \<open>if (asset.custom_filename)\<close> tests truthiness:
  an absent property and the empty string both fall through to the derived name.
\<close>

definition generateNewFileName :: "AdGroup \<Rightarrow> ProcessedAsset \<Rightarrow> nat \<Rightarrow> string" where
  "generateNewFileName g a assetIndex =
     (case custom_filename a of
        None \<Rightarrow> derivedFileName g a assetIndex
      | Some s \<Rightarrow> if s \<noteq> [] then s else derivedFileName g a assetIndex)"

subsection \<open>Setting a custom file name\<close>




subsection \<open>Ad-name preview\<close>

text \<open>
  \<open>s.replace(/__+/g, '_')\<close>: scanning from the left, every match of an underscore
  followed by one or more underscores (taken greedily) is replaced by one underscore.
\<close>

function replace_underscores :: "string \<Rightarrow> string" where
  "replace_underscores [] = []"
| "replace_underscores [x] = [x]"
| "replace_underscores (x # y # s) =
     (if x = CHR ''_'' \<and> y = CHR ''_''
      then CHR ''_'' # replace_underscores (dropWhile (\<lambda>c. c = CHR ''_'') s)
      else x # replace_underscores (y # s))"
  by pat_completeness auto
termination
  by (relation "measure length")
    (auto simp: less_Suc_eq_le intro!: le_SucI length_dropWhile_le)

text \<open>
  \<open>generateAdName\<close>: the array \<open>parts\<close> grows by one \<open>push\<close> per present field;
  \<open>if (field)\<close> on a string is the test for the non-empty string. The format token is
  pushed without a test.
\<close>

definition generateAdName :: "AdGroup \<Rightarrow> string" where
  "generateAdName g =
     (let adNum = padStart 3 ''0'' (String_num (ad_number g));
          parts = [adNum];
          parts = (if campaign g \<noteq> [] then parts @ [campaign g] else parts);
          parts = (if product g \<noteq> [] then parts @ [product g] else parts);
          parts = parts @ [format_token g];
          parts = (if angle g \<noteq> [] then parts @ [angle g] else parts);
          parts = (if hook g \<noteq> [] then parts @ [hook g] else parts);
          parts = (if creator g \<noteq> [] then parts @ [creator g] else parts);
          parts = (if offer g then parts @ [''Offer''] else parts);
          parts = (if date g \<noteq> [] then parts @ [date g] else parts)
      in replace_underscores (join ''_'' parts))"

subsection \<open>Duplicate file names\<close>

text \<open>
  A \<open>Map<string, number>\<close> is an association list in insertion order: \<open>set\<close> on a
  key that is present replaces its value in place, on a new key it appends.
\<close>

fun Map_set :: "('k \<times> 'v) list \<Rightarrow> 'k \<Rightarrow> 'v \<Rightarrow> ('k \<times> 'v) list" where
  "Map_set [] k v = [(k, v)]"
| "Map_set ((k', v') # m) k v =
     (if k' = k then (k, v) # m else (k', v') # Map_set m k v)"

definition Map_get :: "('k \<times> 'v) list \<Rightarrow> 'k \<Rightarrow> 'v option" where
  "Map_get m k = map_of m k"

text \<open>
  \<open>filenameCount.set(filename, (filenameCount.get(filename) || 0) + 1)\<close>: \<open>undefined\<close>
  counts as 0.
\<close>

definition countFilename :: "(string \<times> nat) list \<Rightarrow> string \<Rightarrow> (string \<times> nat) list" where
  "countFilename filenameCount filename =
     Map_set filenameCount filename
       ((case Map_get filenameCount filename of None \<Rightarrow> 0 | Some c \<Rightarrow> c) + 1)"

text \<open>The inner loop, over the indices \<open>0 \<le> i < group.assets.length\<close> in order.\<close>

definition countGroup :: "AdGroup \<Rightarrow> (string \<times> nat) list \<Rightarrow> (string \<times> nat) list" where
  "countGroup g filenameCount =
     fold (\<lambda>i m. countFilename m (generateNewFileName g (assets g ! i) i))
       [0..<length (assets g)] filenameCount"

text \<open>
  \<open>duplicateFilenames\<close>: the resulting \<open>Set<string>\<close> is the list of its members in
  insertion order.
\<close>

definition duplicateFilenames :: "AdGroup list \<Rightarrow> string list" where
  "duplicateFilenames gs =
     (let filenameCount = fold countGroup gs []
      in map fst (filter (\<lambda>(filename, count). count > 1) filenameCount))"

section \<open>The group card\<close>

text \<open>\<open>minConfidence\<close>: \<open>Math.min\<close> of the four scores.\<close>

definition minConfidence :: "AdGroup \<Rightarrow> rat" where
  "minConfidence g =
     min (min (min (conf_group (confidence g)) (conf_product (confidence g)))
            (conf_angle (confidence g)))
       (conf_offer (confidence g))"

section \<open>The unified page\<close>

text \<open>The callback of \<open>sortedGroups.map\<close> in \<open>handlePasteToSheet\<close>.\<close>

definition pasteAdName :: "AdGroup \<Rightarrow> string" where
  "pasteAdName g =
     (let adNum = padStart 3 ''0'' (String_num (ad_number g));
          parts = [adNum];
          parts = (if product g \<noteq> [] then parts @ [product g] else parts);
          parts = parts @ [format_token g];
          parts = (if hook g \<noteq> [] then parts @ [hook g] else parts);
          parts = (if creator g \<noteq> [] then parts @ [creator g] else parts);
          parts = (if offer g then parts @ [''Colab''] else parts);
          parts = (if date g \<noteq> [] then parts @ [date g] else parts)
      in replace_underscores (join ''_'' parts))"

subsection \<open>Display order\<close>

definition getFirstFilename :: "AdGroup \<Rightarrow> string" where
  "getFirstFilename g = (if length (assets g) = 0 then [] else name (asset (assets g ! 0)))"

definition is_digit :: "char \<Rightarrow> bool" where
  "is_digit c = (c \<in> set ''0123456789'')"

definition digit_value :: "char \<Rightarrow> nat" where
  "digit_value c = of_char c - 48"

text \<open>
  \<open>parseInt(ds, 10)\<close> on a string of decimal digits, as the exact integer. The
  JavaScript number is that integer as long as it is below \<open>2^53\<close>; the theorems on the
  display order assume this bound.
\<close>

definition parseInt :: "string \<Rightarrow> nat" where
  "parseInt ds = foldl (\<lambda>acc c. 10 * acc + digit_value c) 0 ds"

text \<open>
  \<open>extractNumber\<close>: the regular expression \<open>/^(\d+)/\<close> matches the longest run of
  digits at the start of the name; \<open>None\<close> stands for \<open>Infinity\<close>, the result without
  a match.
\<close>

definition extractNumber :: "string \<Rightarrow> nat option" where
  "extractNumber filename =
     (let ds = takeWhile is_digit filename
      in if ds = [] then None else Some (parseInt ds))"

text \<open>
  The comparator of \<open>sortedGroups\<close>. \<open>localeCompare\<close> depends on the host's collation
  and is a parameter.
\<close>

definition compareGroups :: "(string \<Rightarrow> string \<Rightarrow> int) \<Rightarrow> AdGroup \<Rightarrow> AdGroup \<Rightarrow> int" where
  "compareGroups localeCompare a b =
     (let aName = getFirstFilename a;
          bName = getFirstFilename b;
          aNum = extractNumber aName;
          bNum = extractNumber bName
      in case (aNum, bNum) of
           (Some x, Some y) \<Rightarrow> int x - int y
         | _ \<Rightarrow> localeCompare aName bName)"

text \<open>
  \<open>Array.prototype.sort\<close> with a comparator is a stable sort: an element stays behind
  the elements before it unless the comparator puts it strictly first. The model is the
  stable insertion sort; for a comparator that orders the elements consistently every
  stable sort returns the same array.
\<close>

fun insert_sorted :: "('a \<Rightarrow> 'a \<Rightarrow> int) \<Rightarrow> 'a \<Rightarrow> 'a list \<Rightarrow> 'a list" where
  "insert_sorted cmp x [] = [x]"
| "insert_sorted cmp x (y # ys) =
     (if cmp x y \<le> 0 then x # y # ys else y # insert_sorted cmp x ys)"

definition Array_sort :: "('a \<Rightarrow> 'a \<Rightarrow> int) \<Rightarrow> 'a list \<Rightarrow> 'a list" where
  "Array_sort cmp xs = foldr (insert_sorted cmp) xs []"

text \<open>\<open>analyzedGroups?.groups.slice().sort(...) || []\<close>.\<close>

definition sortedGroups ::
  "(string \<Rightarrow> string \<Rightarrow> int) \<Rightarrow> GroupedAssets option \<Rightarrow> AdGroup list" where
  "sortedGroups localeCompare analyzedGroups =
     (case analyzedGroups of
        None \<Rightarrow> []
      | Some d \<Rightarrow> Array_sort (compareGroups localeCompare) (groups d))"

section \<open>The group store\<close>

text \<open>
  Modelled from the spec: the mutation operations of the group store are served by the
  backend (\<open>api.bulkApply\<close> only posts its arguments to \<open>/bulk/apply\<close>), which is not
  part of the frontend sources. The specification maps a field name with its value to a
  closed set of mutable fields, validated at the boundary: product, angle, hook, creator,
  offer, campaign, date and the copy fields. A value of \<open>FieldAssignment\<close> is one such
  field with a value of its type.
\<close>

datatype FieldAssignment =
    Set_product string
  | Set_angle string
  | Set_hook string
  | Set_creator string
  | Set_offer bool
  | Set_campaign string
  | Set_date string
  | Set_primary_text string
  | Set_headline string
  | Set_description string
  | Set_cta string
  | Set_url string
  | Set_comment_media_buyer string
  | Set_comment_client string

text \<open>Modelled from the spec: setting the field of one group to the value.\<close>

fun setField :: "FieldAssignment \<Rightarrow> AdGroup \<Rightarrow> AdGroup" where
  "setField (Set_product s) g = g\<lparr>product := s\<rparr>"
| "setField (Set_angle s) g = g\<lparr>angle := s\<rparr>"
| "setField (Set_hook s) g = g\<lparr>hook := s\<rparr>"
| "setField (Set_creator s) g = g\<lparr>creator := s\<rparr>"
| "setField (Set_offer b) g = g\<lparr>offer := b\<rparr>"
| "setField (Set_campaign s) g = g\<lparr>campaign := s\<rparr>"
| "setField (Set_date s) g = g\<lparr>date := s\<rparr>"
| "setField (Set_primary_text s) g = g\<lparr>primary_text := s\<rparr>"
| "setField (Set_headline s) g = g\<lparr>headline := s\<rparr>"
| "setField (Set_description s) g = g\<lparr>description := s\<rparr>"
| "setField (Set_cta s) g = g\<lparr>cta := s\<rparr>"
| "setField (Set_url s) g = g\<lparr>url := s\<rparr>"
| "setField (Set_comment_media_buyer s) g = g\<lparr>comment_media_buyer := s\<rparr>"
| "setField (Set_comment_client s) g = g\<lparr>comment_client := s\<rparr>"

datatype StoreError = NotFound "string list"

text \<open>
  Modelled from the spec: \<open>bulkApply(group_ids, field, value)\<close> sets the field to the
  value for every group in \<open>group_ids\<close>; it fails with \<open>NotFound\<close>, listing the ids
  not present, when any id is absent from the snapshot, and then applies to no group.
\<close>

definition bulkApply ::
  "GroupedAssets \<Rightarrow> string list \<Rightarrow> FieldAssignment \<Rightarrow> StoreError + GroupedAssets" where
  "bulkApply snapshot group_ids u =
     (let absent = filter (\<lambda>i. i \<notin> set (map ad_group_id (groups snapshot))) group_ids
      in if absent \<noteq> [] then Inl (NotFound absent)
         else Inr (snapshot\<lparr>groups :=
                     map (\<lambda>g. if ad_group_id g \<in> set group_ids then setField u g else g)
                       (groups snapshot)\<rparr>))"

text \<open>
  Modelled from the spec: an operation returns a new snapshot, or fails and leaves the
  caller with the previous snapshot. This is the snapshot the caller holds afterwards.
\<close>

definition snapshot_after :: "GroupedAssets \<Rightarrow> StoreError + GroupedAssets \<Rightarrow> GroupedAssets" where
  "snapshot_after previous result = (case result of Inl e \<Rightarrow> previous | Inr s \<Rightarrow> s)"

section \<open>The export view\<close>

text \<open>
  Modelled from the spec: the export projection (the backend behind
  \<open>api.previewExport\<close>) is not part of the frontend sources. The row of the asset at
  index \<open>i\<close> of group \<open>g\<close> holds the file identifier, the old name, the new name as
  computed by the Namer, the group id, the group type, the inferred placement and the four
  confidence scores of the group.
\<close>

definition exportRow :: "AdGroup \<Rightarrow> nat \<Rightarrow> ProcessedAsset \<Rightarrow> ExportRow" where
  "exportRow g i a =
     \<lparr>file_id = asset_id (asset a),
      old_name = name (asset a),
      new_name = generateNewFileName g a i,
      group_id = ad_group_id g,
      group_type = GroupType_token (AdGroup.group_type g),
      placement_inferred = Placement_token (placement a),
      confidence_group = conf_group (confidence g),
      confidence_product = conf_product (confidence g),
      confidence_angle = conf_angle (confidence g),
      confidence_offer = conf_offer (confidence g)\<rparr>"

text \<open>
  Modelled from the spec: the row of an asset of the ungrouped pool. The specification
  gives every asset a row and says nothing on the group columns of an asset without
  group; they are taken from the parameter \<open>blank\<close>. The columns of the asset itself are
  the asset's.
\<close>

definition ungroupedRow :: "ExportRow \<Rightarrow> ProcessedAsset \<Rightarrow> ExportRow" where
  "ungroupedRow blank a =
     blank\<lparr>file_id := asset_id (asset a),
           old_name := name (asset a),
           placement_inferred := Placement_token (placement a)\<rparr>"

text \<open>
  Modelled from the spec: the flattened export view, one row per asset: the assets of the
  groups, in the order of the groups and of the assets in them, then the ungrouped pool.
\<close>

definition exportRows :: "ExportRow \<Rightarrow> GroupedAssets \<Rightarrow> ExportRow list" where
  "exportRows blank d =
     concat (map (\<lambda>g. map (\<lambda>i. exportRow g i (assets g ! i)) [0..<length (assets g)])
               (groups d))
       @ map (ungroupedRow blank) (ungrouped d)"

section \<open>Notions of the specification\<close>

text \<open>
  The \<open>k\<close> lowest decimal digits of \<open>n\<close>, highest first: the digit at position
  \<open>j\<close> from the right is \<open>n div 10^j mod 10\<close>, written as the character with code
  \<open>48 +\<close> digit.
\<close>

fun fixed_digits :: "nat \<Rightarrow> nat \<Rightarrow> string" where
  "fixed_digits k n =
     (if k = 0 then [] else fixed_digits (k - 1) (n div 10) @ [char_of (48 + n mod 10)])"

declare fixed_digits.simps [simp del]

text \<open>The number of decimal digits of \<open>n\<close> (one for 0).\<close>

fun width :: "nat \<Rightarrow> nat" where
  "width n = (if n < 10 then 1 else Suc (width (n div 10)))"

declare width.simps [simp del]

text \<open>
  The number \<open>n\<close> zero-padded to \<open>w\<close> digits: its \<open>w\<close> lowest decimal digits when
  it has at most \<open>w\<close> digits, all its digits otherwise.
\<close>

definition zero_pad :: "nat \<Rightarrow> nat \<Rightarrow> string" where
  "zero_pad w n = fixed_digits (max w (width n)) n"

text \<open>
  The extension of a file name as the specification has it: the part after the last
  dot, and \<open>jpg\<close> when the name has no dot or nothing follows the last dot.
\<close>

definition original_extension :: "string \<Rightarrow> string" where
  "original_extension nm =
     (let e = rev (takeWhile (\<lambda>c. c \<noteq> CHR ''.'') (rev nm))
      in if CHR ''.'' \<in> set nm \<and> e \<noteq> [] then e else ''jpg'')"

text \<open>The part of a name after its last dot (the whole name when it has no dot).\<close>

definition after_last_dot :: "string \<Rightarrow> string" where
  "after_last_dot nm = rev (takeWhile (\<lambda>c. c \<noteq> CHR ''.'') (rev nm))"

text \<open>Every run of two or more underscores collapsed to one underscore.\<close>

fun collapse :: "string \<Rightarrow> string" where
  "collapse (x # y # s) =
     (if x = CHR ''_'' \<and> y = CHR ''_'' then collapse (y # s) else x # collapse (y # s))"
| "collapse s = s"

text \<open>The non-empty fields among the given ones, in order.\<close>

definition present :: "string list \<Rightarrow> string list" where
  "present fs = filter (\<lambda>f. f \<noteq> []) fs"

text \<open>The field an assignment names has the value of the assignment.\<close>

fun fieldHolds :: "FieldAssignment \<Rightarrow> AdGroup \<Rightarrow> bool" where
  "fieldHolds (Set_product s) g = (product g = s)"
| "fieldHolds (Set_angle s) g = (angle g = s)"
| "fieldHolds (Set_hook s) g = (hook g = s)"
| "fieldHolds (Set_creator s) g = (creator g = s)"
| "fieldHolds (Set_offer b) g = (offer g = b)"
| "fieldHolds (Set_campaign s) g = (campaign g = s)"
| "fieldHolds (Set_date s) g = (date g = s)"
| "fieldHolds (Set_primary_text s) g = (primary_text g = s)"
| "fieldHolds (Set_headline s) g = (headline g = s)"
| "fieldHolds (Set_description s) g = (description g = s)"
| "fieldHolds (Set_cta s) g = (cta g = s)"
| "fieldHolds (Set_url s) g = (url g = s)"
| "fieldHolds (Set_comment_media_buyer s) g = (comment_media_buyer g = s)"
| "fieldHolds (Set_comment_client s) g = (comment_client g = s)"

text \<open>
  Every position of a snapshot's groups, the index of a group paired with the index of an
  asset in it, with the file name generated there.
\<close>

fun entries_from :: "nat \<Rightarrow> AdGroup list \<Rightarrow> ((nat \<times> nat) \<times> string) list" where
  "entries_from k [] = []"
| "entries_from k (g # gs) =
     map (\<lambda>i. ((k, i), generateNewFileName g (assets g ! i) i)) [0..<length (assets g)]
       @ entries_from (Suc k) gs"

text \<open>The count a file-name map holds for a key, 0 for a key it does not hold.\<close>

definition count_of :: "('k \<times> nat) list \<Rightarrow> 'k \<Rightarrow> nat" where
  "count_of m k = (case map_of m k of None \<Rightarrow> 0 | Some c \<Rightarrow> c)"

text \<open>The number at the start of the name of a group's first asset (0 without one).\<close>

definition leading_number :: "AdGroup \<Rightarrow> nat" where
  "leading_number g =
     (case extractNumber (getFirstFilename g) of None \<Rightarrow> 0 | Some n \<Rightarrow> n)"

section \<open>Example values\<close>

definition mk_asset ::
  "string \<Rightarrow> AssetType \<Rightarrow> Placement \<Rightarrow> string option \<Rightarrow> ProcessedAsset" where
  "mk_asset nm ty pl cf =
     \<lparr>asset = \<lparr>asset_id = nm, name = nm, path = nm, asset_type = ty, size_bytes = None\<rparr>,
      placement = pl, ocr_text = [], fingerprint = [], frame_paths = [],
      thumbnail_url = None, card_headline = [], card_description = [],
      custom_filename = cf\<rparr>"

definition mk_group :: "string \<Rightarrow> GroupType \<Rightarrow> nat \<Rightarrow> rat \<Rightarrow> ProcessedAsset list \<Rightarrow> AdGroup" where
  "mk_group gid ty n c as =
     \<lparr>ad_group_id = gid, group_type = ty, assets = as, ad_number = n, product = [],
      angle = [], hook = [], creator = [], offer = False, campaign = [], date = [],
      confidence = \<lparr>conf_group = c, conf_product = c, conf_angle = c, conf_offer = c\<rparr>,
      format_token = ''IMG'', primary_text = [], headline = [], description = [],
      cta = [], url = [], comment_media_buyer = [], comment_client = []\<rparr>"


section \<open>Facts about the string primitives\<close>

lemma concat_replicate_single: "concat (replicate k [c]) = replicate k c"
  by (induction k) simp_all

lemma padStart_zero: "padStart w ''0'' s = replicate (w - length s) (CHR ''0'') @ s"
  by (simp add: padStart_def concat_replicate_single)

text \<open>
  \<open>String(n).padStart(w, '0')\<close> is the number zero-padded to \<open>w\<close> digits: the
  digits \<open>String\<close> prints are the decimal digits of \<open>n\<close>, and the padding adds the
  leading zeros of the fixed-width representation.
\<close>

lemma digit_char_code:
  assumes "d < 10"
  shows "digit_char d = char_of (48 + d)"
proof -
  have "d = 0 \<or> d = 1 \<or> d = 2 \<or> d = 3 \<or> d = 4 \<or> d = 5 \<or> d = 6 \<or> d = 7 \<or> d = 8 \<or> d = 9"
    using assms by arith
  then show ?thesis
    by (elim disjE) (auto simp: digit_char_def intro!: of_char_eqI [where ?'a = nat])
qed

lemma fixed_digits_0: "fixed_digits 0 n = []"
  by (simp add: fixed_digits.simps [of 0])

lemma fixed_digits_Suc:
  "fixed_digits (Suc k) n = fixed_digits k (n div 10) @ [char_of (48 + n mod 10)]"
  by (simp add: fixed_digits.simps [of "Suc k"])

lemmas fixed_digits_simps = fixed_digits_0 fixed_digits_Suc

lemma length_fixed_digits: "length (fixed_digits k n) = k"
  by (induction k arbitrary: n) (simp_all add: fixed_digits_simps)

lemma fixed_digits_zero: "fixed_digits j 0 = replicate j (CHR ''0'')"
proof (induction j)
  case 0
  then show ?case by (simp add: fixed_digits_simps)
next
  case (Suc j)
  have "char_of (48 :: nat) = CHR ''0''"
    by (rule of_char_eqI [where ?'a = nat]) simp
  then show ?case using Suc by (simp add: fixed_digits_simps replicate_append_same)
qed

lemma fixed_digits_pad:
  "n < 10 ^ k \<Longrightarrow> fixed_digits (j + k) n = replicate j (CHR ''0'') @ fixed_digits k n"
proof (induction k arbitrary: n)
  case 0
  then show ?case by (simp add: fixed_digits_zero fixed_digits_simps)
next
  case (Suc k)
  have "n div 10 < 10 ^ k"
    using Suc.prems by (simp add: less_mult_imp_div_less mult.commute)
  then show ?case using Suc.IH [of "n div 10"] by (simp add: fixed_digits_simps)
qed

lemma width_bound: "n < 10 ^ width n"
proof (induction n rule: width.induct)
  case (1 n)
  show ?case
  proof (cases "n < 10")
    case True
    then show ?thesis by (simp add: width.simps [of n])
  next
    case False
    then have "n div 10 < 10 ^ width (n div 10)" using "1.IH" by simp
    then have "n < 10 * 10 ^ width (n div 10)" by (simp add: div_less_iff_less_mult mult.commute)
    then show ?thesis using False by (simp add: width.simps [of n])
  qed
qed

lemma String_num_fixed_digits: "String_num n = fixed_digits (width n) n"
proof (induction n rule: String_num.induct)
  case (1 n)
  show ?case
  proof (cases "n < 10")
    case True
    then show ?thesis
      by (simp add: String_num.simps [of n] width.simps [of n] digit_char_code
          fixed_digits_simps)
  next
    case False
    then show ?thesis
      using "1.IH"
      by (simp add: String_num.simps [of n] width.simps [of n] digit_char_code
          fixed_digits_simps)
  qed
qed

lemma padStart_zero_pad: "padStart w ''0'' (String_num n) = zero_pad w n"
proof -
  have "padStart w ''0'' (String_num n)
      = replicate (w - width n) (CHR ''0'') @ fixed_digits (width n) n"
    by (simp add: padStart_zero String_num_fixed_digits length_fixed_digits)
  also have "\<dots> = fixed_digits ((w - width n) + width n) n"
    using fixed_digits_pad [OF width_bound, of "w - width n" n] by simp
  also have "(w - width n) + width n = max w (width n)"
    by simp
  finally show ?thesis by (simp add: zero_pad_def)
qed

text \<open>
  \<open>String(n)\<close> is a decimal representation of \<open>n\<close>: reading it back gives \<open>n\<close>.
\<close>

lemma digit_value_digit_char:
  assumes "d < 10"
  shows "digit_value (digit_char d) = d"
proof -
  have "d = 0 \<or> d = 1 \<or> d = 2 \<or> d = 3 \<or> d = 4 \<or> d = 5 \<or> d = 6 \<or> d = 7 \<or> d = 8 \<or> d = 9"
    using assms by arith
  then show ?thesis
    by (elim disjE) (simp_all add: digit_value_def digit_char_def)
qed

lemma parseInt_snoc: "parseInt (ds @ [c]) = 10 * parseInt ds + digit_value c"
  by (simp add: parseInt_def)

lemma parseInt_String_num: "parseInt (String_num n) = n"
proof (induction n rule: String_num.induct)
  case (1 n)
  show ?case
  proof (cases "n < 10")
    case True
    then show ?thesis
      by (simp add: String_num.simps [of n] parseInt_def digit_value_digit_char)
  next
    case False
    then have "parseInt (String_num n) = 10 * (n div 10) + n mod 10"
      using "1.IH" by (simp add: String_num.simps [of n] parseInt_snoc digit_value_digit_char)
    then show ?thesis by simp
  qed
qed

lemma takeWhile_not_mem: "c \<notin> set xs \<Longrightarrow> takeWhile (\<lambda>x. x \<noteq> c) xs = xs"
  by (induction xs) auto

lemma split_from_nonempty: "split_from c acc s \<noteq> []"
  by (induction s arbitrary: acc) simp_all

text \<open>The last piece of a split is what follows the last separator.\<close>

lemma last_split_from:
  "c \<notin> set acc \<Longrightarrow>
   last (split_from c acc s) = rev (takeWhile (\<lambda>x. x \<noteq> c) (rev s @ acc))"
proof (induction s arbitrary: acc)
  case Nil
  then show ?case by (simp add: takeWhile_not_mem)
next
  case (Cons x xs)
  show ?case
  proof (cases "x = c")
    case True
    have "last (split_from c acc (x # xs)) = last (split_from c [] xs)"
      using True by (simp add: split_from_nonempty)
    also have "\<dots> = rev (takeWhile (\<lambda>x. x \<noteq> c) (rev xs))"
      using Cons.IH [of "[]"] by simp
    also have "takeWhile (\<lambda>x. x \<noteq> c) (rev xs)
        = takeWhile (\<lambda>x. x \<noteq> c) (rev (x # xs) @ acc)"
      using True by (simp add: takeWhile_tail)
    finally show ?thesis .
  next
    case False
    then show ?thesis using Cons.IH [of "x # acc"] Cons.prems by simp
  qed
qed

text \<open>
  The extension the code uses: the part after the last dot, and \<open>jpg\<close> only when that
  part is empty. A non-empty name without a dot is its own extension.
\<close>

lemma ext_of_after_last_dot:
  "ext_of nm = (if after_last_dot nm = [] then ''jpg'' else after_last_dot nm)"
  by (simp add: ext_of_def pop_def split_def split_from_nonempty last_split_from
      after_last_dot_def)

lemma ext_of_no_dot: "CHR ''.'' \<notin> set nm \<Longrightarrow> nm \<noteq> [] \<Longrightarrow> ext_of nm = nm"
  by (simp add: ext_of_after_last_dot after_last_dot_def takeWhile_not_mem)

lemma ext_of_suffix:
  "CHR ''.'' \<notin> set e \<Longrightarrow> e \<noteq> [] \<Longrightarrow> ext_of (pre @ ''.'' @ e) = e"
  by (simp add: ext_of_after_last_dot after_last_dot_def takeWhile_tail takeWhile_not_mem)

lemma ext_of_trailing_dot: "ext_of (pre @ ''.'') = ''jpg''"
  by (simp add: ext_of_after_last_dot after_last_dot_def)

lemma ext_of_empty: "ext_of [] = ''jpg''"
  by (simp add: ext_of_after_last_dot after_last_dot_def)

lemma collapse_underscore:
  "collapse (CHR ''_'' # s) = CHR ''_'' # collapse (dropWhile (\<lambda>c. c = CHR ''_'') s)"
  by (induction s) simp_all

text \<open>The regular-expression replacement collapses exactly the runs of underscores.\<close>

lemma replace_underscores_collapse: "replace_underscores s = collapse s"
  by (induction s rule: replace_underscores.induct) (simp_all add: collapse_underscore)

lemma present_simps:
  "present [] = []"
  "present (f # fs) = (if f = [] then present fs else f # present fs)"
  by (simp_all add: present_def)


lemma ext_of_original_extension:
  "CHR ''.'' \<in> set nm \<or> nm = [] \<Longrightarrow> ext_of nm = original_extension nm"
  by (auto simp: ext_of_after_last_dot original_extension_def after_last_dot_def Let_def)

section \<open>Per-asset file names\<close>

text \<open>
  What \<open>generateNewFileName\<close> returns for an asset without custom file name, in the
  terms of the specification. The ad number and the card number are zero-padded as
  specified; the extension is the specified one for a name with a dot (and for the empty
  name), and the whole name for a non-empty name without a dot.
\<close>

lemma generateNewFileName_unset:
  assumes "custom_filename a = None" and "ad_number g < 2 ^ 53" and "i + 1 < 2 ^ 53"
  shows "generateNewFileName g a i =
     (let nm = name (asset a);
          ext = (if CHR ''.'' \<in> set nm \<or> nm = [] then original_extension nm else nm)
      in if AdGroup.group_type g = Carousel
         then zero_pad 4 (ad_number g) @ ''_CAR_Card'' @ zero_pad 2 (i + 1) @ ''.'' @ ext
         else zero_pad 3 (ad_number g) @ ''_'' @ AssetType_token (asset_type (asset a))
                @ ''_'' @ Placement_token (placement a) @ ''.'' @ ext)"
proof -
  have "ext_of (name (asset a)) =
      (if CHR ''.'' \<in> set (name (asset a)) \<or> name (asset a) = []
       then original_extension (name (asset a)) else name (asset a))"
    using ext_of_original_extension [of "name (asset a)"] ext_of_no_dot [of "name (asset a)"]
    by auto
  then show ?thesis
    using assms(1)
    by (simp add: generateNewFileName_def derivedFileName_def Let_def padStart_zero_pad)
qed

text \<open>
  Claim C1: without custom file name, the generated name of a carousel card is the ad
  number zero-padded to 4 digits, \<open>_CAR_Card\<close>, the position zero-padded to 2 digits, a
  dot and the extension, and otherwise the ad number zero-padded to 3 digits, the type
  token and the placement token separated by underscores, a dot and the extension; the
  extension is the original one, \<open>jpg\<close> if the name has none. The code evaluated at
  names without a dot, for a carousel card and for a video of a standard group: the part
  before the dot follows the schema, the extension is the whole name where the
  specified extension is \<open>jpg\<close>.
\<close>

theorem generateNewFileName_extension_default_missed:
  "generateNewFileName (mk_group ''g1'' Carousel 7 1 [])
       (mk_asset ''photo'' IMG Story None) 2 = ''0007_CAR_Card03.photo''
   \<and> generateNewFileName (mk_group ''g2'' Standard 12 1 [])
       (mk_asset ''clip'' VID Feed None) 0 = ''012_VID_feed.clip''
   \<and> original_extension ''photo'' = ''jpg'' \<and> original_extension ''clip'' = ''jpg''"
proof -
  let ?g1 = "mk_group ''g1'' Carousel 7 1 []" and ?a1 = "mk_asset ''photo'' IMG Story None"
  let ?g2 = "mk_group ''g2'' Standard 12 1 []" and ?a2 = "mk_asset ''clip'' VID Feed None"
  have u1: "custom_filename ?a1 = None" and u2: "custom_filename ?a2 = None"
    by (simp_all add: mk_asset_def)
  have b1: "ad_number ?g1 < 2 ^ 53" and b2: "ad_number ?g2 < 2 ^ 53"
    by (simp_all add: mk_group_def)
  have i1: "(2::nat) + 1 < 2 ^ 53" and i2: "(0::nat) + 1 < 2 ^ 53"
    by simp_all
  have "generateNewFileName ?g1 ?a1 2 =
     (let nm = name (asset ?a1);
          ext = (if CHR ''.'' \<in> set nm \<or> nm = [] then original_extension nm else nm)
      in if AdGroup.group_type ?g1 = Carousel
         then zero_pad 4 (ad_number ?g1) @ ''_CAR_Card'' @ zero_pad 2 (2 + 1) @ ''.'' @ ext
         else zero_pad 3 (ad_number ?g1) @ ''_'' @ AssetType_token (asset_type (asset ?a1))
                @ ''_'' @ Placement_token (placement ?a1) @ ''.'' @ ext)"
    using u1 b1 i1 by (rule generateNewFileName_unset)
  also have "\<dots> = ''0007_CAR_Card03.photo''"
    by code_simp
  finally have c1: "generateNewFileName ?g1 ?a1 2 = ''0007_CAR_Card03.photo''" .
  have "generateNewFileName ?g2 ?a2 0 =
     (let nm = name (asset ?a2);
          ext = (if CHR ''.'' \<in> set nm \<or> nm = [] then original_extension nm else nm)
      in if AdGroup.group_type ?g2 = Carousel
         then zero_pad 4 (ad_number ?g2) @ ''_CAR_Card'' @ zero_pad 2 (0 + 1) @ ''.'' @ ext
         else zero_pad 3 (ad_number ?g2) @ ''_'' @ AssetType_token (asset_type (asset ?a2))
                @ ''_'' @ Placement_token (placement ?a2) @ ''.'' @ ext)"
    using u2 b2 i2 by (rule generateNewFileName_unset)
  also have "\<dots> = ''012_VID_feed.clip''"
    by code_simp
  finally have c2: "generateNewFileName ?g2 ?a2 0 = ''012_VID_feed.clip''" .
  have e: "original_extension ''photo'' = ''jpg'' \<and> original_extension ''clip'' = ''jpg''"
    by code_simp
  show ?thesis using c1 c2 e by simp
qed


lemma generateNewFileName_falsy_custom:
  "custom_filename a = None \<or> custom_filename a = Some [] \<Longrightarrow>
   generateNewFileName g a i = derivedFileName g a i"
  by (auto simp: generateNewFileName_def)




text \<open>
  Claim C5: the extension is the part of the asset's name after the last dot, and \<open>jpg\<close>
  for a name without a dot. The code evaluated at the name \<open>photo\<close>: the split has the
  one piece \<open>photo\<close>, which is not empty, so the default \<open>jpg\<close> is not taken and the
  whole name becomes the extension.
\<close>

theorem extension_without_dot_is_whole_name:
  "CHR ''.'' \<notin> set ''photo''
   \<and> generateNewFileName (mk_group ''g1'' Standard 1 1 [])
        (mk_asset ''photo'' IMG Story None) 0 = ''001_IMG_story.photo''"
  by code_simp

section \<open>Ad names\<close>

text \<open>
  Claim C6. The ad-name preview is the underscore-join of the ad number zero-padded to 3
  digits, campaign, product, format token, angle, hook, creator, the marker \<open>Offer\<close> when
  offer is true, and date, in this order, with every empty optional field skipped, and
  with every run of two or more underscores in the joined string collapsed to one. The ad
  number is an integer a JavaScript number holds exactly.
\<close>

theorem generateAdName_preview:
  assumes "ad_number g < 2 ^ 53"
  shows "generateAdName g =
     collapse (join ''_''
       (zero_pad 3 (ad_number g) # present [campaign g, product g] @ [format_token g]
          @ present [angle g, hook g, creator g]
          @ (if offer g then [''Offer''] else []) @ present [date g]))"
  by (simp add: generateAdName_def Let_def present_simps replace_underscores_collapse
      padStart_zero_pad)

theorem generateAdName_preview_witness:
  "ad_number ((mk_group ''g1'' Standard 7 1 [])
       \<lparr>campaign := ''JanAds'', product := ''Big__Box'', hook := ''H1'', offer := True,
        date := ''2026.01.05''\<rparr>) < 2 ^ 53
   \<and> generateAdName ((mk_group ''g1'' Standard 7 1 [])
       \<lparr>campaign := ''JanAds'', product := ''Big__Box'', hook := ''H1'', offer := True,
        date := ''2026.01.05''\<rparr>)
     = ''007_JanAds_Big_Box_IMG_H1_Offer_2026.01.05''"
proof -
  let ?g = "(mk_group ''g1'' Standard 7 1 [])
       \<lparr>campaign := ''JanAds'', product := ''Big__Box'', hook := ''H1'', offer := True,
        date := ''2026.01.05''\<rparr>"
  have b: "ad_number ?g < 2 ^ 53" by (simp add: mk_group_def)
  have z: "zero_pad 3 7 = ''007''" by code_simp
  have "generateAdName ?g
     = collapse (join ''_''
         (zero_pad 3 7 # present [''JanAds'', ''Big__Box''] @ [''IMG'']
          @ present [[], ''H1'', []] @ [''Offer''] @ present [''2026.01.05'']))"
    using generateAdName_preview [OF b] by (simp add: mk_group_def)
  also have "\<dots> = ''007_JanAds_Big_Box_IMG_H1_Offer_2026.01.05''"
    unfolding z by code_simp
  finally show ?thesis using b by simp
qed

text \<open>
  Claim C10: the ad name pasted to the sheet equals the preview of the asset table, with
  the same fields and the same offer marker. The two builders evaluated at a group with
  the offer flag, and at a group with a campaign and an angle: the pasted name carries
  \<open>Colab\<close> where the preview carries \<open>Offer\<close>, and it has neither campaign nor angle.
\<close>

theorem pasteAdName_differs_from_preview:
  "pasteAdName ((mk_group ''g1'' Standard 7 1 [])\<lparr>offer := True\<rparr>) = ''007_IMG_Colab''
   \<and> generateAdName ((mk_group ''g1'' Standard 7 1 [])\<lparr>offer := True\<rparr>) = ''007_IMG_Offer''
   \<and> pasteAdName ((mk_group ''g1'' Standard 7 1 [])\<lparr>campaign := ''JanAds'', angle := ''Price''\<rparr>)
       = ''007_IMG''
   \<and> generateAdName
       ((mk_group ''g1'' Standard 7 1 [])\<lparr>campaign := ''JanAds'', angle := ''Price''\<rparr>)
       = ''007_JanAds_IMG_Price''"
  by code_simp

section \<open>Duplicate file names\<close>

lemma count_of_Nil: "count_of [] k = 0"
  by (simp add: count_of_def)

lemma map_of_Map_set: "map_of (Map_set m k v) = (map_of m)(k \<mapsto> v)"
  by (induction m k v rule: Map_set.induct) auto

lemma keys_Map_set: "set (map fst (Map_set m k v)) = insert k (set (map fst m))"
  by (induction m k v rule: Map_set.induct) auto

lemma distinct_Map_set: "distinct (map fst m) \<Longrightarrow> distinct (map fst (Map_set m k v))"
proof (induction m k v rule: Map_set.induct)
  case (1 k v)
  then show ?case by simp
next
  case (2 k' v' m k v)
  then show ?case using keys_Map_set [of m k v] by auto
qed

lemma count_of_countFilename:
  "count_of (countFilename m f) f' = count_of m f' + (if f' = f then 1 else 0)"
  by (simp add: count_of_def countFilename_def Map_get_def map_of_Map_set)

lemma distinct_countFilename:
  "distinct (map fst m) \<Longrightarrow> distinct (map fst (countFilename m f))"
  by (simp add: countFilename_def distinct_Map_set)

lemma count_of_fold:
  "count_of (fold (\<lambda>f m. countFilename m f) fs m) f' = count_of m f' + count_list fs f'"
  by (induction fs arbitrary: m) (simp_all add: count_of_countFilename)

lemma distinct_fold:
  "distinct (map fst m) \<Longrightarrow> distinct (map fst (fold (\<lambda>f m. countFilename m f) fs m))"
  by (induction fs arbitrary: m) (simp_all add: distinct_countFilename)

lemma countGroup_fold:
  "countGroup g m =
     fold (\<lambda>f m. countFilename m f)
       (map (\<lambda>i. generateNewFileName g (assets g ! i) i) [0..<length (assets g)]) m"
  by (simp add: countGroup_def fold_map comp_def)

lemma fold_countGroup:
  "fold countGroup gs m = fold (\<lambda>f m. countFilename m f) (map snd (entries_from k gs)) m"
proof (induction gs arbitrary: k m)
  case Nil
  then show ?case by simp
next
  case (Cons g gs)
  show ?case
    using Cons.IH [of "countGroup g m" "Suc k"]
    by (simp add: countGroup_fold comp_def)
qed

lemma set_duplicates_count:
  assumes "distinct (map fst m)"
  shows "set (map fst (filter (\<lambda>(filename, count). count > 1) m)) = {f. count_of m f > 1}"
proof -
  have "\<And>f c. (f, c) \<in> set m \<longleftrightarrow> map_of m f = Some c"
    using assms by simp
  then show ?thesis
    by (auto simp: count_of_def image_iff split: option.splits) 
qed

lemma duplicateFilenames_count:
  "set (duplicateFilenames gs) = {f. count_list (map snd (entries_from 0 gs)) f > 1}"
proof -
  have d: "distinct (map fst (fold (\<lambda>f m. countFilename m f) (map snd (entries_from 0 gs)) []))"
    by (rule distinct_fold) simp
  show ?thesis
    unfolding duplicateFilenames_def Let_def fold_countGroup [of gs "[]" 0]
      set_duplicates_count [OF d]
    by (simp add: count_of_fold count_of_Nil)
qed

lemma count_list_pos_iff: "0 < count_list xs x \<longleftrightarrow> x \<in> set xs"
  by (induction xs) auto

lemma count_twice_iff:
  assumes "distinct (map fst es)"
  shows "1 < count_list (map snd es) f \<longleftrightarrow>
         (\<exists>p q. p \<noteq> q \<and> (p, f) \<in> set es \<and> (q, f) \<in> set es)"
  using assms
proof (induction es)
  case Nil
  then show ?case by simp
next
  case (Cons e es)
  obtain k v where e: "e = (k, v)" by (cases e)
  have k: "k \<notin> fst ` set es" and d: "distinct (map fst es)"
    using Cons.prems e by auto
  have pos: "0 < count_list (map snd es) f \<longleftrightarrow> (\<exists>q. (q, f) \<in> set es)"
    by (force simp: count_list_pos_iff)
  show ?case
  proof (cases "v = f")
    case True
    have "1 < count_list (map snd (e # es)) f \<longleftrightarrow> 0 < count_list (map snd es) f"
      using e True by simp
    also have "\<dots> \<longleftrightarrow> (\<exists>q. (q, f) \<in> set es)" by (rule pos)
    also have "\<dots> \<longleftrightarrow> (\<exists>p q. p \<noteq> q \<and> (p, f) \<in> set (e # es) \<and> (q, f) \<in> set (e # es))"
    proof
      assume "\<exists>q. (q, f) \<in> set es"
      then obtain q where q: "(q, f) \<in> set es" by blast
      then have "q \<noteq> k" using k by force
      then show "\<exists>p q. p \<noteq> q \<and> (p, f) \<in> set (e # es) \<and> (q, f) \<in> set (e # es)"
        using q e True by auto
    next
      assume "\<exists>p q. p \<noteq> q \<and> (p, f) \<in> set (e # es) \<and> (q, f) \<in> set (e # es)"
      then show "\<exists>q. (q, f) \<in> set es" using e by auto
    qed
    finally show ?thesis .
  next
    case False
    then show ?thesis using Cons.IH [OF d] e by auto
  qed
qed

lemma fst_entries_from: "p \<in> fst ` set (entries_from k gs) \<Longrightarrow> k \<le> fst p"
proof (induction gs arbitrary: k)
  case Nil
  then show ?case by simp
next
  case (Cons g gs)
  then show ?case by (fastforce simp: image_Un)
qed

lemma distinct_entries_from: "distinct (map fst (entries_from k gs))"
proof (induction gs arbitrary: k)
  case Nil
  then show ?case by simp
next
  case (Cons g gs)
  have "distinct (map (\<lambda>i. (k, i)) [0..<length (assets g)])"
    by (simp add: distinct_map inj_on_def)
  moreover have "\<And>a b. ((k, a), b) \<notin> set (entries_from (Suc k) gs)"
    using fst_entries_from [of _ "Suc k" gs] by force
  ultimately show ?case using Cons.IH [of "Suc k"]
    by (auto simp: comp_def)
qed

lemma set_entries_from:
  "((gi, ai), f) \<in> set (entries_from k gs) \<longleftrightarrow>
     k \<le> gi \<and> gi - k < length gs \<and> ai < length (assets (gs ! (gi - k)))
     \<and> f = generateNewFileName (gs ! (gi - k)) (assets (gs ! (gi - k)) ! ai) ai"
proof (induction gs arbitrary: k)
  case Nil
  then show ?case by simp
next
  case (Cons g gs)
  show ?case
  proof (cases "gi = k")
    case True
    have "((gi, ai), f) \<notin> set (entries_from (Suc k) gs)"
      using Cons.IH [of "Suc k"] True by simp
    then show ?thesis using True by auto
  next
    case False
    have "gi - k = Suc (gi - Suc k)" if "k \<le> gi"
      using that False by simp
    then show ?thesis using False Cons.IH [of "Suc k"]
      by (auto simp: Suc_le_eq less_Suc_eq_le nth_Cons')
  qed
qed

lemma entries_from_0:
  "((gi, ai), f) \<in> set (entries_from 0 gs) \<longleftrightarrow>
     gi < length gs \<and> ai < length (assets (gs ! gi))
     \<and> f = generateNewFileName (gs ! gi) (assets (gs ! gi) ! ai) ai"
  by (simp add: set_entries_from)

text \<open>
  Claim C3. The duplicate-file-name set is exactly the set of strings generated as file
  name at two or more distinct positions (group index, asset index) of the groups. So a
  name on which two groups collide is in the set, and it leaves the set as soon as the
  names differ and no two positions generate it any more.
\<close>

theorem duplicateFilenames_exact:
  "set (duplicateFilenames gs) =
     {f. \<exists>gi ai gj aj. (gi, ai) \<noteq> (gj, aj)
          \<and> gi < length gs \<and> ai < length (assets (gs ! gi))
          \<and> gj < length gs \<and> aj < length (assets (gs ! gj))
          \<and> generateNewFileName (gs ! gi) (assets (gs ! gi) ! ai) ai = f
          \<and> generateNewFileName (gs ! gj) (assets (gs ! gj) ! aj) aj = f}"
  (is "?L = ?R")
proof (rule set_eqI)
  fix f
  have "f \<in> ?L \<longleftrightarrow> 1 < count_list (map snd (entries_from 0 gs)) f"
    by (simp add: duplicateFilenames_count)
  also have "\<dots> \<longleftrightarrow>
        (\<exists>p q. p \<noteq> q \<and> (p, f) \<in> set (entries_from 0 gs) \<and> (q, f) \<in> set (entries_from 0 gs))"
    by (rule count_twice_iff [OF distinct_entries_from])
  also have "\<dots> \<longleftrightarrow> f \<in> ?R"
  proof
    assume "\<exists>p q. p \<noteq> q \<and> (p, f) \<in> set (entries_from 0 gs) \<and> (q, f) \<in> set (entries_from 0 gs)"
    then obtain gi ai gj aj where "(gi, ai) \<noteq> (gj, aj)"
      and "((gi, ai), f) \<in> set (entries_from 0 gs)"
      and "((gj, aj), f) \<in> set (entries_from 0 gs)"
      by (metis surj_pair)
    then have "(gi, ai) \<noteq> (gj, aj)
          \<and> gi < length gs \<and> ai < length (assets (gs ! gi))
          \<and> gj < length gs \<and> aj < length (assets (gs ! gj))
          \<and> generateNewFileName (gs ! gi) (assets (gs ! gi) ! ai) ai = f
          \<and> generateNewFileName (gs ! gj) (assets (gs ! gj) ! aj) aj = f"
      by (simp add: entries_from_0)
    then show "f \<in> ?R" by blast
  next
    assume "f \<in> ?R"
    then obtain gi ai gj aj where "(gi, ai) \<noteq> (gj, aj)"
          "gi < length gs" "ai < length (assets (gs ! gi))"
          "gj < length gs" "aj < length (assets (gs ! gj))"
          "generateNewFileName (gs ! gi) (assets (gs ! gi) ! ai) ai = f"
          "generateNewFileName (gs ! gj) (assets (gs ! gj) ! aj) aj = f"
      by blast
    then have "(gi, ai) \<noteq> (gj, aj) \<and> ((gi, ai), f) \<in> set (entries_from 0 gs)
        \<and> ((gj, aj), f) \<in> set (entries_from 0 gs)"
      by (simp add: entries_from_0)
    then show "\<exists>p q. p \<noteq> q \<and> (p, f) \<in> set (entries_from 0 gs) \<and> (q, f) \<in> set (entries_from 0 gs)"
      by blast
  qed
  finally show "f \<in> ?L \<longleftrightarrow> f \<in> ?R" .
qed



theorem duplicateFilenames_exact_witness:
  "''001_IMG_story.jpg'' \<in> set (duplicateFilenames
      [mk_group ''g1'' Standard 1 1
         [mk_asset ''a.jpg'' IMG Story None, mk_asset ''b.jpg'' IMG Feed None],
       mk_group ''g2'' Standard 1 1
         [mk_asset ''c.jpg'' IMG Story None, mk_asset ''d.jpg'' IMG Feed None]])
   \<and> duplicateFilenames
      [mk_group ''g1'' Standard 1 1
         [mk_asset ''a.jpg'' IMG Story None, mk_asset ''b.jpg'' IMG Feed None],
       mk_group ''g2'' Standard 2 1
         [mk_asset ''c.jpg'' IMG Story None, mk_asset ''d.jpg'' IMG Feed None]] = []"
proof -
  let ?gs = "[mk_group ''g1'' Standard 1 1
         [mk_asset ''a.jpg'' IMG Story None, mk_asset ''b.jpg'' IMG Feed None],
       mk_group ''g2'' Standard 1 1
         [mk_asset ''c.jpg'' IMG Story None, mk_asset ''d.jpg'' IMG Feed None]]"
  have a: "generateNewFileName (?gs ! 0) (assets (?gs ! 0) ! 0) 0 = ''001_IMG_story.jpg''"
    by code_simp
  have b: "generateNewFileName (?gs ! 1) (assets (?gs ! 1) ! 0) 0 = ''001_IMG_story.jpg''"
    by code_simp
  have l: "(0::nat) < length ?gs \<and> (1::nat) < length ?gs
      \<and> (0::nat) < length (assets (?gs ! 0)) \<and> (0::nat) < length (assets (?gs ! 1))"
    by (simp add: mk_group_def)
  have "((0::nat), (0::nat)) \<noteq> (1, 0)" by simp
  with a b l have "''001_IMG_story.jpg'' \<in>
     {f. \<exists>gi ai gj aj. (gi, ai) \<noteq> (gj, aj)
          \<and> gi < length ?gs \<and> ai < length (assets (?gs ! gi))
          \<and> gj < length ?gs \<and> aj < length (assets (?gs ! gj))
          \<and> generateNewFileName (?gs ! gi) (assets (?gs ! gi) ! ai) ai = f
          \<and> generateNewFileName (?gs ! gj) (assets (?gs ! gj) ! aj) aj = f}"
    by blast
  then have "''001_IMG_story.jpg'' \<in> set (duplicateFilenames ?gs)"
    using duplicateFilenames_exact [of ?gs] by simp
  moreover have "duplicateFilenames
      [mk_group ''g1'' Standard 1 1
         [mk_asset ''a.jpg'' IMG Story None, mk_asset ''b.jpg'' IMG Feed None],
       mk_group ''g2'' Standard 2 1
         [mk_asset ''c.jpg'' IMG Story None, mk_asset ''d.jpg'' IMG Feed None]] = []"
    by code_simp
  ultimately show ?thesis by simp
qed

section \<open>Display order of the groups\<close>

lemma mset_insert_sorted: "mset (insert_sorted cmp x ys) = add_mset x (mset ys)"
  by (induction ys) simp_all

lemma mset_Array_sort: "mset (Array_sort cmp xs) = mset xs"
  by (induction xs) (simp_all add: Array_sort_def mset_insert_sorted)

lemma set_insert_sorted: "set (insert_sorted cmp x ys) = insert x (set ys)"
  by (induction ys) auto

lemma set_Array_sort: "set (Array_sort cmp xs) = set xs"
  using mset_Array_sort [of cmp xs] by (metis set_mset_mset)

lemma sorted_insert_sorted:
  assumes "\<And>y. y \<in> set ys \<Longrightarrow> cmp x y = int (k x) - int (k y)"
    and "sorted (map k ys)"
  shows "sorted (map k (insert_sorted cmp x ys))"
  using assms
proof (induction ys)
  case Nil
  then show ?case by simp
next
  case (Cons y ys)
  then show ?case by (auto simp: set_insert_sorted)
qed

text \<open>A comparator that is the difference of a numeric key sorts by that key.\<close>

lemma sorted_Array_sort:
  assumes "\<And>x y. x \<in> set xs \<Longrightarrow> y \<in> set xs \<Longrightarrow> cmp x y = int (k x) - int (k y)"
  shows "sorted (map k (Array_sort cmp xs))"
  using assms
proof (induction xs)
  case Nil
  then show ?case by (simp add: Array_sort_def)
next
  case (Cons x xs)
  have s: "sorted (map k (Array_sort cmp xs))"
    using Cons by simp
  have "sorted (map k (insert_sorted cmp x (Array_sort cmp xs)))"
  proof (rule sorted_insert_sorted [OF _ s])
    fix y assume "y \<in> set (Array_sort cmp xs)"
    then show "cmp x y = int (k x) - int (k y)"
      using Cons.prems by (simp add: set_Array_sort)
  qed
  then show ?case by (simp add: Array_sort_def)
qed

lemma compareGroups_numbers:
  assumes "extractNumber (getFirstFilename a) = Some x"
    and "extractNumber (getFirstFilename b) = Some y"
  shows "compareGroups lc a b = int (leading_number a) - int (leading_number b)"
  using assms by (simp add: compareGroups_def leading_number_def)

text \<open>
  Claim C7, as stated: the displayed groups are in ascending order of the minimum of their
  four confidence scores. Two groups whose first assets are named \<open>1.jpg\<close> and
  \<open>2.jpg\<close>, with scores 9/10 and 1/10, are displayed in the order of the names; the
  minimum confidences in display order are 9/10, 1/10.
\<close>

theorem sortedGroups_not_by_confidence_counterexample:
  "\<not> sorted (map minConfidence
       (sortedGroups (\<lambda>a b. 0)
          (Some \<lparr>groups =
                   [mk_group ''gA'' Single 1 (9 / 10) [mk_asset ''1.jpg'' IMG Story None],
                    mk_group ''gB'' Single 2 (1 / 10) [mk_asset ''2.jpg'' IMG Story None]],
                 ungrouped = []\<rparr>)))"
  by code_simp

text \<open>
  Claim C7, amended: the displayed groups are ordered by the name of their first asset.
  When the first asset's name of every group starts with a number (below \<open>2^53\<close>, so
  that \<open>parseInt\<close> is exact), the displayed groups are the snapshot's groups in
  ascending order of that number, whatever their confidence scores and whatever the
  locale comparison.
\<close>

theorem sortedGroups_by_number:
  assumes "\<forall>g \<in> set (groups d). \<exists>n < 2 ^ 53. extractNumber (getFirstFilename g) = Some n"
  shows "sorted (map leading_number (sortedGroups lc (Some d)))
         \<and> mset (sortedGroups lc (Some d)) = mset (groups d)"
proof -
  have "sorted (map leading_number (Array_sort (compareGroups lc) (groups d)))"
  proof (rule sorted_Array_sort)
    fix a b assume "a \<in> set (groups d)" "b \<in> set (groups d)"
    then obtain x y where "extractNumber (getFirstFilename a) = Some x"
      "extractNumber (getFirstFilename b) = Some y"
      using assms by blast
    then show "compareGroups lc a b = int (leading_number a) - int (leading_number b)"
      by (rule compareGroups_numbers)
  qed
  then show ?thesis by (simp add: sortedGroups_def mset_Array_sort)
qed

theorem sortedGroups_by_number_witness:
  "extractNumber (getFirstFilename
       (mk_group ''gA'' Single 1 (9 / 10) [mk_asset ''10_b.jpg'' IMG Story None])) = Some 10
   \<and> extractNumber (getFirstFilename
       (mk_group ''gB'' Single 2 (1 / 10) [mk_asset ''2_a.jpg'' IMG Story None])) = Some 2
   \<and> sorted (map leading_number
       (sortedGroups (\<lambda>a b. 0)
          (Some \<lparr>groups =
                   [mk_group ''gA'' Single 1 (9 / 10) [mk_asset ''10_b.jpg'' IMG Story None],
                    mk_group ''gB'' Single 2 (1 / 10) [mk_asset ''2_a.jpg'' IMG Story None]],
                 ungrouped = []\<rparr>)))
   \<and> map ad_group_id
       (sortedGroups (\<lambda>a b. 0)
          (Some \<lparr>groups =
                   [mk_group ''gA'' Single 1 (9 / 10) [mk_asset ''10_b.jpg'' IMG Story None],
                    mk_group ''gB'' Single 2 (1 / 10) [mk_asset ''2_a.jpg'' IMG Story None]],
                 ungrouped = []\<rparr>)) = [''gB'', ''gA'']"
proof -
  let ?gA = "mk_group ''gA'' Single 1 (9 / 10) [mk_asset ''10_b.jpg'' IMG Story None]"
  let ?gB = "mk_group ''gB'' Single 2 (1 / 10) [mk_asset ''2_a.jpg'' IMG Story None]"
  let ?d = "\<lparr>groups = [?gA, ?gB], ungrouped = []\<rparr>"
  have eA: "extractNumber (getFirstFilename ?gA) = Some 10" by code_simp
  have eB: "extractNumber (getFirstFilename ?gB) = Some 2" by code_simp
  have h: "\<forall>g \<in> set (groups ?d). \<exists>n < 2 ^ 53. extractNumber (getFirstFilename g) = Some n"
    using eA eB by simp
  have o: "map ad_group_id (sortedGroups (\<lambda>a b. 0) (Some ?d)) = [''gB'', ''gA'']"
    by code_simp
  show ?thesis
    using eA eB o sortedGroups_by_number [OF h, of "\<lambda>a b. 0"] by blast
qed

section \<open>Bulk apply on the group store\<close>

lemma fieldHolds_setField: "fieldHolds u (setField u g)"
  by (cases u) simp_all

lemma filter_absent_Nil:
  "filter (\<lambda>i. i \<notin> A) ids = [] \<longleftrightarrow> set ids \<subseteq> A"
  by (auto simp: filter_empty_conv)

text \<open>
  Claim C4. \<open>bulkApply(group_ids, field, value)\<close>: when every id of \<open>group_ids\<close> is
  in the snapshot, the result is a snapshot with the same groups in the same order where
  every group whose id is listed has the field set to the value and every other group is
  unchanged. When some id is absent, the operation fails with \<open>NotFound\<close>, listing
  exactly the absent ids, and the snapshot the caller holds afterwards is the previous
  one: the value is applied to no group.
\<close>

theorem bulkApply_all_or_nothing:
  "(set group_ids \<subseteq> ad_group_id ` set (groups s) \<longrightarrow>
      (\<exists>s'. bulkApply s group_ids u = Inr s'
         \<and> length (groups s') = length (groups s) \<and> ungrouped s' = ungrouped s
         \<and> (\<forall>k < length (groups s).
               (ad_group_id (groups s ! k) \<in> set group_ids \<longrightarrow>
                  groups s' ! k = setField u (groups s ! k) \<and> fieldHolds u (groups s' ! k))
             \<and> (ad_group_id (groups s ! k) \<notin> set group_ids \<longrightarrow>
                  groups s' ! k = groups s ! k))))
   \<and> (\<not> set group_ids \<subseteq> ad_group_id ` set (groups s) \<longrightarrow>
        bulkApply s group_ids u
          = Inl (NotFound (filter (\<lambda>i. i \<notin> ad_group_id ` set (groups s)) group_ids))
        \<and> set (filter (\<lambda>i. i \<notin> ad_group_id ` set (groups s)) group_ids)
            = set group_ids - ad_group_id ` set (groups s)
        \<and> snapshot_after s (bulkApply s group_ids u) = s)"
proof (intro conjI impI)
  assume sub: "set group_ids \<subseteq> ad_group_id ` set (groups s)"
  let ?s' = "s\<lparr>groups :=
               map (\<lambda>g. if ad_group_id g \<in> set group_ids then setField u g else g)
                 (groups s)\<rparr>"
  have "filter (\<lambda>i. i \<notin> ad_group_id ` set (groups s)) group_ids = []"
    using sub by (simp add: filter_absent_Nil)
  then have r: "bulkApply s group_ids u = Inr ?s'"
    by (simp add: bulkApply_def)
  have "length (groups ?s') = length (groups s) \<and> ungrouped ?s' = ungrouped s
         \<and> (\<forall>k < length (groups s).
               (ad_group_id (groups s ! k) \<in> set group_ids \<longrightarrow>
                  groups ?s' ! k = setField u (groups s ! k) \<and> fieldHolds u (groups ?s' ! k))
             \<and> (ad_group_id (groups s ! k) \<notin> set group_ids \<longrightarrow>
                  groups ?s' ! k = groups s ! k))"
    by (simp add: fieldHolds_setField)
  with r show "\<exists>s'. bulkApply s group_ids u = Inr s'
         \<and> length (groups s') = length (groups s) \<and> ungrouped s' = ungrouped s
         \<and> (\<forall>k < length (groups s).
               (ad_group_id (groups s ! k) \<in> set group_ids \<longrightarrow>
                  groups s' ! k = setField u (groups s ! k) \<and> fieldHolds u (groups s' ! k))
             \<and> (ad_group_id (groups s ! k) \<notin> set group_ids \<longrightarrow>
                  groups s' ! k = groups s ! k))"
    by blast
next
  assume n: "\<not> set group_ids \<subseteq> ad_group_id ` set (groups s)"
  then have ne: "filter (\<lambda>i. i \<notin> ad_group_id ` set (groups s)) group_ids \<noteq> []"
    by (simp add: filter_absent_Nil)
  then show r: "bulkApply s group_ids u
          = Inl (NotFound (filter (\<lambda>i. i \<notin> ad_group_id ` set (groups s)) group_ids))"
    by (simp add: bulkApply_def)
  show "set (filter (\<lambda>i. i \<notin> ad_group_id ` set (groups s)) group_ids)
            = set group_ids - ad_group_id ` set (groups s)"
    by auto
  show "snapshot_after s (bulkApply s group_ids u) = s"
    by (simp add: r snapshot_after_def)
qed

theorem bulkApply_all_or_nothing_witness:
  "\<not> set [''g1'', ''g9''] \<subseteq> ad_group_id `
        set (groups \<lparr>groups = [mk_group ''g1'' Single 1 1 [], mk_group ''g2'' Single 2 1 []],
                     ungrouped = []\<rparr>)
   \<and> bulkApply
        \<lparr>groups = [mk_group ''g1'' Single 1 1 [], mk_group ''g2'' Single 2 1 []],
         ungrouped = []\<rparr>
        [''g1'', ''g9''] (Set_product ''Widget'') = Inl (NotFound [''g9''])
   \<and> snapshot_after
        \<lparr>groups = [mk_group ''g1'' Single 1 1 [], mk_group ''g2'' Single 2 1 []],
         ungrouped = []\<rparr>
        (bulkApply
          \<lparr>groups = [mk_group ''g1'' Single 1 1 [], mk_group ''g2'' Single 2 1 []],
           ungrouped = []\<rparr>
          [''g1'', ''g9''] (Set_product ''Widget''))
       = \<lparr>groups = [mk_group ''g1'' Single 1 1 [], mk_group ''g2'' Single 2 1 []],
          ungrouped = []\<rparr>
   \<and> set [''g1''] \<subseteq> ad_group_id `
        set (groups \<lparr>groups = [mk_group ''g1'' Single 1 1 [], mk_group ''g2'' Single 2 1 []],
                     ungrouped = []\<rparr>)
   \<and> bulkApply
        \<lparr>groups = [mk_group ''g1'' Single 1 1 [], mk_group ''g2'' Single 2 1 []],
         ungrouped = []\<rparr>
        [''g1''] (Set_product ''Widget'')
       = Inr \<lparr>groups = [(mk_group ''g1'' Single 1 1 [])\<lparr>product := ''Widget''\<rparr>,
                        mk_group ''g2'' Single 2 1 []],
              ungrouped = []\<rparr>"
proof -
  let ?g1 = "mk_group ''g1'' Single 1 1 []"
  let ?g2 = "mk_group ''g2'' Single 2 1 []"
  let ?s = "\<lparr>groups = [?g1, ?g2], ungrouped = []\<rparr>"
  have n: "\<not> set [''g1'', ''g9''] \<subseteq> ad_group_id ` set (groups ?s)"
    by (simp add: mk_group_def)
  have f: "filter (\<lambda>i. i \<notin> ad_group_id ` set (groups ?s)) [''g1'', ''g9''] = [''g9'']"
    by (simp add: mk_group_def)
  have a: "bulkApply ?s [''g1'', ''g9''] (Set_product ''Widget'') = Inl (NotFound [''g9''])
      \<and> snapshot_after ?s (bulkApply ?s [''g1'', ''g9''] (Set_product ''Widget'')) = ?s"
    using n bulkApply_all_or_nothing [of "[''g1'', ''g9'']" ?s "Set_product ''Widget''"]
    unfolding f by blast
  have p: "set [''g1''] \<subseteq> ad_group_id ` set (groups ?s)"
    by (simp add: mk_group_def)
  have b: "bulkApply ?s [''g1''] (Set_product ''Widget'')
      = Inr \<lparr>groups = [?g1\<lparr>product := ''Widget''\<rparr>, ?g2], ungrouped = []\<rparr>"
    by code_simp
  show ?thesis using n a p b by blast
qed

section \<open>The export view\<close>

lemma column_of_group:
  assumes "\<And>i a. c (exportRow g i a) = h a"
  shows "map (\<lambda>i. c (exportRow g i (assets g ! i))) [0..<length (assets g)] = map h (assets g)"
  by (rule nth_equalityI) (simp_all add: assms)

lemma column_of_rows:
  assumes "\<And>g i a. c (exportRow g i a) = h a" and "\<And>a. c (ungroupedRow blank a) = h a"
  shows "map c (exportRows blank d) = map h (concat (map assets (groups d)) @ ungrouped d)"
proof -
  have "map c (concat (map (\<lambda>g. map (\<lambda>i. exportRow g i (assets g ! i)) [0..<length (assets g)])
               (groups d)))
      = concat (map (\<lambda>g. map h (assets g)) (groups d))"
    by (simp add: map_concat comp_def column_of_group [of c _ h, OF assms(1)])
  then show ?thesis
    by (simp add: exportRows_def map_concat comp_def assms(2))
qed

text \<open>
  Claim C8. The flattened export view is a function of the snapshot with exactly one row
  per asset, in the order of the assets (the groups' assets, then the ungrouped pool):
  the rows' file identifiers, old names and inferred placements are the assets'. The row
  of the asset at index \<open>i\<close> of a group holds, besides these, the new name computed by
  \<open>generateNewFileName\<close>, the group id, the group type and the four confidence scores
  group, product, angle and offer of the group.
\<close>

theorem exportRows_one_row_per_asset:
  "map file_id (exportRows blank d)
     = map (\<lambda>a. asset_id (asset a)) (concat (map assets (groups d)) @ ungrouped d)
   \<and> map old_name (exportRows blank d)
     = map (\<lambda>a. name (asset a)) (concat (map assets (groups d)) @ ungrouped d)
   \<and> map placement_inferred (exportRows blank d)
     = map (\<lambda>a. Placement_token (placement a)) (concat (map assets (groups d)) @ ungrouped d)
   \<and> (\<forall>g \<in> set (groups d). \<forall>i < length (assets g). \<exists>r \<in> set (exportRows blank d).
         file_id r = asset_id (asset (assets g ! i))
       \<and> old_name r = name (asset (assets g ! i))
       \<and> new_name r = generateNewFileName g (assets g ! i) i
       \<and> group_id r = ad_group_id g
       \<and> ExportRow.group_type r = GroupType_token (AdGroup.group_type g)
       \<and> placement_inferred r = Placement_token (placement (assets g ! i))
       \<and> confidence_group r = conf_group (confidence g)
       \<and> confidence_product r = conf_product (confidence g)
       \<and> confidence_angle r = conf_angle (confidence g)
       \<and> confidence_offer r = conf_offer (confidence g))"
proof (intro conjI ballI allI impI)
  show "map file_id (exportRows blank d)
     = map (\<lambda>a. asset_id (asset a)) (concat (map assets (groups d)) @ ungrouped d)"
    by (rule column_of_rows) (simp_all add: exportRow_def ungroupedRow_def)
  show "map old_name (exportRows blank d)
     = map (\<lambda>a. name (asset a)) (concat (map assets (groups d)) @ ungrouped d)"
    by (rule column_of_rows) (simp_all add: exportRow_def ungroupedRow_def)
  show "map placement_inferred (exportRows blank d)
     = map (\<lambda>a. Placement_token (placement a)) (concat (map assets (groups d)) @ ungrouped d)"
    by (rule column_of_rows) (simp_all add: exportRow_def ungroupedRow_def)
next
  fix g i assume g: "g \<in> set (groups d)" and i: "i < length (assets g)"
  have "exportRow g i (assets g ! i) \<in> set (exportRows blank d)"
  proof -
    have "exportRow g i (assets g ! i)
        \<in> (\<lambda>k. exportRow g k (assets g ! k)) ` {0..<length (assets g)}"
      using i by simp
    then show ?thesis
      using g unfolding exportRows_def by (simp add: image_iff) blast
  qed
  then show "\<exists>r \<in> set (exportRows blank d).
         file_id r = asset_id (asset (assets g ! i))
       \<and> old_name r = name (asset (assets g ! i))
       \<and> new_name r = generateNewFileName g (assets g ! i) i
       \<and> group_id r = ad_group_id g
       \<and> ExportRow.group_type r = GroupType_token (AdGroup.group_type g)
       \<and> placement_inferred r = Placement_token (placement (assets g ! i))
       \<and> confidence_group r = conf_group (confidence g)
       \<and> confidence_product r = conf_product (confidence g)
       \<and> confidence_angle r = conf_angle (confidence g)
       \<and> confidence_offer r = conf_offer (confidence g)"
    by (rule rev_bexI) (simp add: exportRow_def)
qed

theorem exportRows_one_row_per_asset_witness:
  "map file_id (exportRows
       \<lparr>file_id = [], old_name = [], new_name = [], group_id = [], group_type = [],
        placement_inferred = [], confidence_group = 0, confidence_product = 0,
        confidence_angle = 0, confidence_offer = 0\<rparr>
       \<lparr>groups = [mk_group ''g1'' Standard 1 (1 / 2)
                    [mk_asset ''a.jpg'' IMG Story None, mk_asset ''b.mp4'' VID Feed None]],
        ungrouped = [mk_asset ''u.jpg'' IMG Unknown None]\<rparr>)
     = [''a.jpg'', ''b.mp4'', ''u.jpg'']
   \<and> (\<exists>r \<in> set (exportRows
       \<lparr>file_id = [], old_name = [], new_name = [], group_id = [], group_type = [],
        placement_inferred = [], confidence_group = 0, confidence_product = 0,
        confidence_angle = 0, confidence_offer = 0\<rparr>
       \<lparr>groups = [mk_group ''g1'' Standard 1 (1 / 2)
                    [mk_asset ''a.jpg'' IMG Story None, mk_asset ''b.mp4'' VID Feed None]],
        ungrouped = [mk_asset ''u.jpg'' IMG Unknown None]\<rparr>).
         file_id r = ''b.mp4'' \<and> new_name r = ''001_VID_feed.mp4'' \<and> group_id r = ''g1''
       \<and> ExportRow.group_type r = ''standard'' \<and> placement_inferred r = ''feed''
       \<and> confidence_angle r = 1 / 2)"
proof -
  let ?blank = "\<lparr>file_id = [], old_name = [], new_name = [], group_id = [], group_type = [],
        placement_inferred = [], confidence_group = 0, confidence_product = 0,
        confidence_angle = 0, confidence_offer = 0\<rparr>"
  let ?g = "mk_group ''g1'' Standard 1 (1 / 2)
                    [mk_asset ''a.jpg'' IMG Story None, mk_asset ''b.mp4'' VID Feed None]"
  let ?d = "\<lparr>groups = [?g], ungrouped = [mk_asset ''u.jpg'' IMG Unknown None]\<rparr>"
  note t = exportRows_one_row_per_asset [of ?blank ?d]
  have "map file_id (exportRows ?blank ?d)
      = map (\<lambda>a. asset_id (asset a)) (concat (map assets (groups ?d)) @ ungrouped ?d)"
    using t by (rule conjunct1)
  also have "\<dots> = [''a.jpg'', ''b.mp4'', ''u.jpg'']"
    by (simp add: mk_group_def mk_asset_def)
  finally have a: "map file_id (exportRows ?blank ?d) = [''a.jpg'', ''b.mp4'', ''u.jpg'']" .
  have g: "?g \<in> set (groups ?d)" by simp
  have i: "(1::nat) < length (assets ?g)" by (simp add: mk_group_def)
  have n: "generateNewFileName ?g (assets ?g ! 1) 1 = ''001_VID_feed.mp4''"
    by code_simp
  have c: "asset_id (asset (assets ?g ! 1)) = ''b.mp4'' \<and> ad_group_id ?g = ''g1''
      \<and> GroupType_token (AdGroup.group_type ?g) = ''standard''
      \<and> Placement_token (placement (assets ?g ! 1)) = ''feed''
      \<and> conf_angle (confidence ?g) = 1 / 2"
    by (simp add: mk_group_def mk_asset_def)
  have "\<forall>g \<in> set (groups ?d). \<forall>i < length (assets g). \<exists>r \<in> set (exportRows ?blank ?d).
         file_id r = asset_id (asset (assets g ! i))
       \<and> old_name r = name (asset (assets g ! i))
       \<and> new_name r = generateNewFileName g (assets g ! i) i
       \<and> group_id r = ad_group_id g
       \<and> ExportRow.group_type r = GroupType_token (AdGroup.group_type g)
       \<and> placement_inferred r = Placement_token (placement (assets g ! i))
       \<and> confidence_group r = conf_group (confidence g)
       \<and> confidence_product r = conf_product (confidence g)
       \<and> confidence_angle r = conf_angle (confidence g)
       \<and> confidence_offer r = conf_offer (confidence g)"
    using t by blast
  then obtain r where "r \<in> set (exportRows ?blank ?d)"
      and "file_id r = asset_id (asset (assets ?g ! 1))"
      and "new_name r = generateNewFileName ?g (assets ?g ! 1) 1"
      and "group_id r = ad_group_id ?g"
      and "ExportRow.group_type r = GroupType_token (AdGroup.group_type ?g)"
      and "placement_inferred r = Placement_token (placement (assets ?g ! 1))"
      and "confidence_angle r = conf_angle (confidence ?g)"
    using g i by blast
  then have "\<exists>r \<in> set (exportRows ?blank ?d).
         file_id r = ''b.mp4'' \<and> new_name r = ''001_VID_feed.mp4'' \<and> group_id r = ''g1''
       \<and> ExportRow.group_type r = ''standard'' \<and> placement_inferred r = ''feed''
       \<and> confidence_angle r = 1 / 2"
    using n c by auto
  with a show ?thesis by blast
qed

end
